theory Spec2Isabelle
  imports Main "HOL-Library.Char_ord" "HOL-Library.List_Lexorder" "HOL-Library.AList"
begin

section \<open>Errors, tokens and characters\<close>

text \<open>
  The program raises \<open>InterpreterError(message)\<close> for every error of its own. The other
  constructors are the Python exceptions that the source can let escape: \<open>int()\<close> on a
  string that is no decimal number (\<open>ValueError\<close>), an attribute of \<open>None\<close>
  (\<open>AttributeError\<close>), an index past the end of a tuple (\<open>IndexError\<close>), and an
  operation on a value of the wrong type (\<open>TypeError\<close>).
\<close>

datatype error = InterpreterError string | ValueError | AttributeError | IndexError | TypeError

datatype Token = Token (ttype: string) (tvalue: string)

abbreviation (input) IDENTIFIER :: string where "IDENTIFIER \<equiv> ''IDENTIFIER''"
abbreviation (input) LITERAL :: string where "LITERAL \<equiv> ''LITERAL''"
abbreviation (input) PLUS :: string where "PLUS \<equiv> ''+''"
abbreviation (input) MINUS :: string where "MINUS \<equiv> ''-''"
abbreviation (input) TIMES :: string where "TIMES \<equiv> ''*''"
abbreviation (input) LPAREN :: string where "LPAREN \<equiv> ''(''"
abbreviation (input) RPAREN :: string where "RPAREN \<equiv> '')''"
abbreviation (input) ASSIGN :: string where "ASSIGN \<equiv> ''=''"
abbreviation (input) SEMI :: string where "SEMI \<equiv> '';''"
abbreviation (input) EOF :: string where "EOF \<equiv> ''EOF''"

text \<open>
  A \<open>char\<close> stands for one code point below 256, so the input texts of the model are the
  Python strings over Latin-1. The four predicates are \<open>str.isspace\<close>, \<open>str.isalpha\<close>,
  \<open>str.isdigit\<close> and \<open>str.isalnum\<close> of Python 3 on these code points. Note the three
  superscript digits 178, 179 and 185, which \<open>isdigit\<close> accepts, and the three vulgar
  fractions 188 to 190, which are numeric and therefore alphanumeric.
\<close>

definition isspace :: "char \<Rightarrow> bool" where
  "isspace c = (let n = (of_char c :: nat) in
     (9 \<le> n \<and> n \<le> 13) \<or> (28 \<le> n \<and> n \<le> 32) \<or> n = 133 \<or> n = 160)"

definition isalpha :: "char \<Rightarrow> bool" where
  "isalpha c = (let n = (of_char c :: nat) in
     (65 \<le> n \<and> n \<le> 90) \<or> (97 \<le> n \<and> n \<le> 122) \<or> n = 170 \<or> n = 181 \<or> n = 186 \<or>
     (192 \<le> n \<and> n \<le> 214) \<or> (216 \<le> n \<and> n \<le> 246) \<or> (248 \<le> n \<and> n \<le> 255))"

definition isdigit :: "char \<Rightarrow> bool" where
  "isdigit c = (let n = (of_char c :: nat) in
     (48 \<le> n \<and> n \<le> 57) \<or> n = 178 \<or> n = 179 \<or> n = 185)"

definition isalnum :: "char \<Rightarrow> bool" where
  "isalnum c = (let n = (of_char c :: nat) in
     isalpha c \<or> isdigit c \<or> (188 \<le> n \<and> n \<le> 190))"

text \<open>The slice \<open>xs[i:j]\<close> for indices that are not negative.\<close>

definition slice :: "'a list \<Rightarrow> nat \<Rightarrow> nat \<Rightarrow> 'a list" where
  "slice xs i j = take (j - i) (drop i xs)"

section \<open>The scanner (class Lexer)\<close>

text \<open>
  The state of a \<open>Lexer\<close> object: the text and the cursor. The field \<open>self.length\<close> is
  set once to \<open>len(text)\<close> and never changed, so the model reads the length of the text.
  A method that raises leaves the object as it was at the raise; the model returns the state
  beside the error, which is where the cursor of a failed scan can be read.
\<close>

record Lexer =
  ltext :: string
  lpos :: nat

definition Lexer_init :: "string \<Rightarrow> Lexer" where
  "Lexer_init s = \<lparr>ltext = s, lpos = 0\<rparr>"

definition peek_L :: "Lexer \<Rightarrow> char option" where
  "peek_L L = (if lpos L < length (ltext L) then Some (ltext L ! lpos L) else None)"

definition advance :: "Lexer \<Rightarrow> Lexer" where
  "advance L = L\<lparr>lpos := lpos L + 1\<rparr>"

text \<open>
  The three loops \<open>while self.peek() and p(self.peek()): self.advance()\<close> of the scanner,
  with the test \<open>p\<close> as a parameter. A one-character string is true in Python, so the first
  conjunct only says that the cursor is inside the text.
\<close>

function advance_while :: "(char \<Rightarrow> bool) \<Rightarrow> Lexer \<Rightarrow> Lexer" where
  "advance_while p L =
     (case peek_L L of
        None \<Rightarrow> L
      | Some c \<Rightarrow> if p c then advance_while p (advance L) else L)"
  by pat_completeness auto
termination
  by (relation "measure (\<lambda>(p, L). length (ltext L) - lpos L)")
     (auto simp: peek_L_def advance_def split: if_splits)

declare advance_while.simps [simp del]

definition skip_whitespace :: "Lexer \<Rightarrow> Lexer" where
  "skip_whitespace L = advance_while isspace L"

definition next_token :: "Lexer \<Rightarrow> (error + Token) \<times> Lexer" where
  "next_token L0 =
     (let L = skip_whitespace L0 in
      case peek_L L of
        None \<Rightarrow> (Inr (Token EOF ''''), L)
      | Some current_char \<Rightarrow>
          if current_char = CHR ''+'' then (Inr (Token PLUS ''+''), advance L)
          else if current_char = CHR ''-'' then (Inr (Token MINUS ''-''), advance L)
          else if current_char = CHR ''*'' then (Inr (Token TIMES ''*''), advance L)
          else if current_char = CHR ''('' then (Inr (Token LPAREN ''(''), advance L)
          else if current_char = CHR '')'' then (Inr (Token RPAREN '')''), advance L)
          else if current_char = CHR ''='' then (Inr (Token ASSIGN ''=''), advance L)
          else if current_char = CHR '';'' then (Inr (Token SEMI '';''), advance L)
          else if isalpha current_char \<or> current_char = CHR ''_'' then
            (let start_pos = lpos L;
                 L1 = advance_while (\<lambda>c. isalnum c \<or> c = CHR ''_'') L;
                 val = slice (ltext L1) start_pos (lpos L1)
             in (Inr (Token IDENTIFIER val), L1))
          else if isdigit current_char then
            (let start_pos = lpos L;
                 L1 = advance L
             in if ltext L1 ! start_pos \<noteq> CHR ''0'' then
                  (let L2 = advance_while isdigit L1
                   in (Inr (Token LITERAL (slice (ltext L2) start_pos (lpos L2))), L2))
                else if (case peek_L L1 of None \<Rightarrow> False | Some c \<Rightarrow> isdigit c) then
                  (Inl (InterpreterError ''Lexical error: Invalid number format (leading zero).''), L1)
                else (Inr (Token LITERAL (slice (ltext L1) start_pos (lpos L1))), L1))
          else (Inl (InterpreterError (''Lexical error: Unexpected character: '' @ [current_char])), L))"


text \<open>Facts about the cursor that the loop of \<open>tokenize\<close> needs to terminate.\<close>

lemma advance_pos [simp]: "lpos (advance L) = Suc (lpos L)"
  by (simp add: advance_def)

lemma advance_text [simp]: "ltext (advance L) = ltext L"
  by (simp add: advance_def)

lemma advance_while_text [simp]: "ltext (advance_while p L) = ltext L"
  by (induction p L rule: advance_while.induct)
     (subst advance_while.simps, auto split: option.splits)

lemma advance_while_pos: "lpos L \<le> lpos (advance_while p L)"
proof (induction p L rule: advance_while.induct)
  case (1 p L)
  show ?case
  proof (cases "peek_L L")
    case None
    then show ?thesis by (subst advance_while.simps) simp
  next
    case (Some c)
    with "1" show ?thesis
      by (subst advance_while.simps) auto
  qed
qed

lemma advance_while_step:
  "peek_L L = Some c \<Longrightarrow> p c \<Longrightarrow> lpos L < lpos (advance_while p L)"
  using advance_while_pos [of "advance L" p]
  by (subst advance_while.simps) simp

lemma isalpha_isalnum: "isalpha c \<Longrightarrow> isalnum c"
  by (simp add: isalnum_def)

lemma next_token_text: "ltext (snd (next_token L)) = ltext L"
  by (simp add: next_token_def Let_def skip_whitespace_def split: option.splits)

lemma next_token_progress:
  assumes "next_token L = (Inr tok, L')" and "ttype tok \<noteq> EOF"
  shows "length (ltext L') - lpos L' < length (ltext L) - lpos L"
proof -
  define L1 where "L1 = skip_whitespace L"
  have t1: "ltext L1 = ltext L" and p1: "lpos L \<le> lpos L1"
    by (simp_all add: L1_def skip_whitespace_def advance_while_pos)
  from assms obtain c where c: "peek_L L1 = Some c"
    by (cases "peek_L L1") (auto simp: next_token_def L1_def Let_def)
  then have inside: "lpos L1 < length (ltext L)"
    using t1 by (auto simp: peek_L_def split: if_splits)
  have t': "ltext L' = ltext L"
    using next_token_text [of L] assms(1) by simp
  have id: "lpos L1 < lpos (advance_while (\<lambda>c. isalnum c \<or> c = CHR ''_'') L1)"
    if "isalpha c \<or> c = CHR ''_''"
    using advance_while_step [OF c, of "\<lambda>c. isalnum c \<or> c = CHR ''_''"] that isalpha_isalnum
    by blast
  have dg: "lpos L1 < lpos (advance_while isdigit (advance L1))"
    using advance_while_pos [of "advance L1" isdigit] by simp
  have "lpos L1 < lpos L'"
    using assms(1) id dg unfolding next_token_def L1_def [symmetric] Let_def c option.case
    by (simp split: if_splits) (use dg in \<open>auto simp del: advance_pos simp: advance_def\<close>)
  with inside p1 t' show ?thesis by simp
qed

text \<open>
  \<open>tokenize\<close>: the loop \<open>while True\<close> appends each token and stops after the first one
  of type \<open>EOF\<close>. The list \<open>tokens\<close> is the loop's accumulator.
\<close>

function tokenize_loop :: "Lexer \<Rightarrow> Token list \<Rightarrow> (error + Token list) \<times> Lexer" where
  "tokenize_loop L tokens =
     (case next_token L of
        (Inl e, L') \<Rightarrow> (Inl e, L')
      | (Inr token, L') \<Rightarrow>
          (let tokens' = tokens @ [token]
           in if ttype token = EOF then (Inr tokens', L') else tokenize_loop L' tokens'))"
  by pat_completeness auto
termination
proof (relation "measure (\<lambda>(L, tokens). length (ltext L) - lpos L)")
  fix L :: Lexer and tokens tokens' :: "Token list" and x L' token
  assume "(x, L') = next_token L" and "x = Inr token" and "ttype token \<noteq> EOF"
  then have "length (ltext L') - lpos L' < length (ltext L) - lpos L"
    using next_token_progress [of L token L'] by simp
  then show "((L', tokens'), (L, tokens)) \<in> measure (\<lambda>(L, tokens). length (ltext L) - lpos L)"
    by simp
qed simp

declare tokenize_loop.simps [simp del]

definition tokenize :: "Lexer \<Rightarrow> (error + Token list) \<times> Lexer" where
  "tokenize L = tokenize_loop L []"


section \<open>The parser (class Parser)\<close>

text \<open>
  The parser builds its syntax trees from Python tuples, strings and integers:
  \<open>('lit', 3)\<close>, \<open>('var', 'x')\<close>, \<open>('-', node)\<close>, \<open>('+', left, right)\<close> and
  \<open>('assign', 'x', node)\<close>. The model keeps them untyped, as the source has them.
\<close>

datatype pyval = PyInt int | PyStr string | PyTuple "pyval list"

text \<open>
  The state of a \<open>Parser\<close> object. A method that raises ends the run of the program, so a
  parser method returns either the error or its result with the new state.
\<close>

record Parser =
  tokens :: "Token list"
  ppos :: nat

definition Parser_init :: "Token list \<Rightarrow> Parser" where
  "Parser_init ts = \<lparr>tokens = ts, ppos = 0\<rparr>"

definition peek_P :: "Parser \<Rightarrow> Token option" where
  "peek_P P = (if ppos P < length (tokens P) then Some (tokens P ! ppos P) else None)"

text \<open>
  \<open>consume(ttype=None)\<close>: the argument is \<open>None\<close> where the source passes none.
\<close>

definition consume :: "string option \<Rightarrow> Parser \<Rightarrow> error + Token \<times> Parser" where
  "consume ttype_arg P =
     (case peek_P P of
        None \<Rightarrow> Inl (InterpreterError ''Syntax error: Unexpected end of input.'')
      | Some token \<Rightarrow>
          (case ttype_arg of
             None \<Rightarrow> Inr (token, P\<lparr>ppos := ppos P + 1\<rparr>)
           | Some ty \<Rightarrow>
               if ttype token \<noteq> ty then
                 Inl (InterpreterError (''Syntax error: Expected '' @ ty @ '', got '' @ ttype token))
               else Inr (token, P\<lparr>ppos := ppos P + 1\<rparr>)))"

text \<open>
  \<open>int(val)\<close> on the text of a literal token. The scanner gives such a token a run of
  \<open>isdigit\<close> characters with no leading zero; \<open>int\<close> reads the runs of the ten ASCII
  digits and raises \<open>ValueError\<close> on a superscript digit. Other strings that \<open>int\<close>
  accepts (signs, blanks, underscores) are no tokens of the scanner and are not modelled,
  nor is the limit that some Python versions put on the number of digits.
\<close>

definition is_digit10 :: "char \<Rightarrow> bool" where
  "is_digit10 c = (48 \<le> (of_char c :: nat) \<and> (of_char c :: nat) \<le> 57)"

definition py_int :: "string \<Rightarrow> error + int" where
  "py_int s =
     (if s \<noteq> [] \<and> list_all is_digit10 s
      then Inr (foldl (\<lambda>n c. 10 * n + (int (of_char c) - 48)) 0 s)
      else Inl ValueError)"


text \<open>
  The grammar methods. The \<open>while True\<close> loops of \<open>exp\<close> and \<open>term\<close> are the functions
  \<open>exp_loop\<close> and \<open>term_loop\<close>, with the local variable \<open>node\<close> as their argument.
  \<open>fact\<close> reads \<open>token.ttype\<close> without testing \<open>token\<close>, which is an
  \<open>AttributeError\<close> when the tokens are used up. A token object is always true, so
  \<open>if token and ...\<close> only tests that there is a token.

  The measure below decreases at every call: a call either follows a consumed token or goes
  from \<open>exp\<close> down to \<open>fact\<close> at the same position.
\<close>

fun parser_measure :: "(Parser + pyval \<times> Parser) + Parser + pyval \<times> Parser + Parser \<Rightarrow> nat" where
  "parser_measure (Inl (Inl P)) = 5 * (length (tokens P) - ppos P) + 4"
| "parser_measure (Inl (Inr (node, P))) = 5 * (length (tokens P) - ppos P) + 3"
| "parser_measure (Inr (Inl P)) = 5 * (length (tokens P) - ppos P) + 2"
| "parser_measure (Inr (Inr (Inl (node, P)))) = 5 * (length (tokens P) - ppos P) + 1"
| "parser_measure (Inr (Inr (Inr P))) = 5 * (length (tokens P) - ppos P)"

function (domintros) exp_P :: "Parser \<Rightarrow> error + pyval \<times> Parser"
  and exp_loop :: "pyval \<Rightarrow> Parser \<Rightarrow> error + pyval \<times> Parser"
  and term_P :: "Parser \<Rightarrow> error + pyval \<times> Parser"
  and term_loop :: "pyval \<Rightarrow> Parser \<Rightarrow> error + pyval \<times> Parser"
  and fact_P :: "Parser \<Rightarrow> error + pyval \<times> Parser"
where
  "exp_P P =
     (case term_P P of
        Inl e \<Rightarrow> Inl e
      | Inr (node, P1) \<Rightarrow> exp_loop node P1)"
| "exp_loop node P =
     (case peek_P P of
        None \<Rightarrow> Inr (node, P)
      | Some token \<Rightarrow>
          if ttype token = ''+'' \<or> ttype token = ''-'' then
            (case consume None P of
               Inl e \<Rightarrow> Inl e
             | Inr (t, P1) \<Rightarrow>
                 (case term_P P1 of
                    Inl e \<Rightarrow> Inl e
                  | Inr (right, P2) \<Rightarrow> exp_loop (PyTuple [PyStr (tvalue t), node, right]) P2))
          else Inr (node, P))"
| "term_P P =
     (case fact_P P of
        Inl e \<Rightarrow> Inl e
      | Inr (node, P1) \<Rightarrow> term_loop node P1)"
| "term_loop node P =
     (case peek_P P of
        None \<Rightarrow> Inr (node, P)
      | Some token \<Rightarrow>
          if ttype token = ''*'' then
            (case consume (Some ''*'') P of
               Inl e \<Rightarrow> Inl e
             | Inr (t, P1) \<Rightarrow>
                 (case fact_P P1 of
                    Inl e \<Rightarrow> Inl e
                  | Inr (right, P2) \<Rightarrow> term_loop (PyTuple [PyStr ''*'', node, right]) P2))
          else Inr (node, P))"
| "fact_P P =
     (case peek_P P of
        None \<Rightarrow> Inl AttributeError
      | Some token \<Rightarrow>
          if ttype token = ''('' then
            (case consume (Some ''('') P of
               Inl e \<Rightarrow> Inl e
             | Inr (t, P1) \<Rightarrow>
                 (case exp_P P1 of
                    Inl e \<Rightarrow> Inl e
                  | Inr (node, P2) \<Rightarrow>
                      (case consume (Some '')'') P2 of
                         Inl e \<Rightarrow> Inl e
                       | Inr (t', P3) \<Rightarrow> Inr (node, P3))))
          else if ttype token = ''+'' then
            (case consume (Some ''+'') P of
               Inl e \<Rightarrow> Inl e
             | Inr (t, P1) \<Rightarrow>
                 (case fact_P P1 of
                    Inl e \<Rightarrow> Inl e
                  | Inr (node, P2) \<Rightarrow> Inr (PyTuple [PyStr ''+'', node], P2)))
          else if ttype token = ''-'' then
            (case consume (Some ''-'') P of
               Inl e \<Rightarrow> Inl e
             | Inr (t, P1) \<Rightarrow>
                 (case fact_P P1 of
                    Inl e \<Rightarrow> Inl e
                  | Inr (node, P2) \<Rightarrow> Inr (PyTuple [PyStr ''-'', node], P2)))
          else if ttype token = ''LITERAL'' then
            (case consume (Some ''LITERAL'') P of
               Inl e \<Rightarrow> Inl e
             | Inr (t, P1) \<Rightarrow>
                 (case py_int (tvalue t) of
                    Inl e \<Rightarrow> Inl e
                  | Inr n \<Rightarrow> Inr (PyTuple [PyStr ''lit'', PyInt n], P1)))
          else if ttype token = ''IDENTIFIER'' then
            (case consume (Some ''IDENTIFIER'') P of
               Inl e \<Rightarrow> Inl e
             | Inr (t, P1) \<Rightarrow> Inr (PyTuple [PyStr ''var'', PyStr (tvalue t)], P1))
          else Inl (InterpreterError ''Syntax error: Invalid factor''))"
  by pat_completeness auto


text \<open>
  A grammar method that returns leaves the token list alone and never moves the cursor
  back. This is first shown on the domain of the functions, which is what their termination
  proof needs.
\<close>

abbreviation (input) advanced :: "Parser \<Rightarrow> Parser \<Rightarrow> bool" where
  "advanced P P' \<equiv> tokens P' = tokens P \<and> ppos P \<le> ppos P'"

lemma consume_Inr:
  "consume ty P = Inr (t, P1) \<Longrightarrow>
     peek_P P = Some t \<and> tokens P1 = tokens P \<and> ppos P1 = Suc (ppos P) \<and> ppos P < length (tokens P)"
  by (auto simp: consume_def peek_P_def split: option.splits if_splits)

lemma parser_advanced_dom:
  "exp_P_exp_loop_term_P_term_loop_fact_P_dom (Inl (Inl P)) \<Longrightarrow>
     exp_P P = Inr (n, P') \<Longrightarrow> advanced P P'"
  "exp_P_exp_loop_term_P_term_loop_fact_P_dom (Inl (Inr (node, P))) \<Longrightarrow>
     exp_loop node P = Inr (n, P') \<Longrightarrow> advanced P P'"
  "exp_P_exp_loop_term_P_term_loop_fact_P_dom (Inr (Inl P)) \<Longrightarrow>
     term_P P = Inr (n, P') \<Longrightarrow> advanced P P'"
  "exp_P_exp_loop_term_P_term_loop_fact_P_dom (Inr (Inr (Inl (node, P)))) \<Longrightarrow>
     term_loop node P = Inr (n, P') \<Longrightarrow> advanced P P'"
  "exp_P_exp_loop_term_P_term_loop_fact_P_dom (Inr (Inr (Inr P))) \<Longrightarrow>
     fact_P P = Inr (n, P') \<Longrightarrow> advanced P P'"
proof (induct arbitrary: n P' and n P' and n P' and n P' and n P'
    rule: exp_P_exp_loop_term_P_term_loop_fact_P.pinduct)
  case (1 P)
  from "1.prems" "1.hyps"(1) obtain m P1 where a: "term_P P = Inr (m, P1)" and b: "exp_loop m P1 = Inr (n, P')"
    by (auto simp: exp_P.psimps split: sum.splits prod.splits)
  from "1.hyps"(2) [OF a] "1.hyps"(3) [OF a refl b] show ?case by simp
next
  case (2 node P)
  show ?case
  proof (cases "peek_P P")
    case None
    with "2.prems" "2.hyps"(1) show ?thesis by (simp add: exp_loop.psimps)
  next
    case (Some token)
    show ?thesis
    proof (cases "ttype token = ''+'' \<or> ttype token = ''-''")
      case False
      with Some "2.prems" "2.hyps"(1) show ?thesis by (simp add: exp_loop.psimps)
    next
      case True
      with Some "2.prems" "2.hyps"(1) obtain t P1 right P2 where
        c: "consume None P = Inr (t, P1)" and tm: "term_P P1 = Inr (right, P2)"
        and l: "exp_loop (PyTuple [PyStr (tvalue t), node, right]) P2 = Inr (n, P')"
        by (auto simp: exp_loop.psimps split: sum.splits prod.splits)
      from "2.hyps"(2) [OF Some True c refl tm]
        "2.hyps"(3) [OF Some True c refl tm refl l] consume_Inr [OF c]
      show ?thesis by simp
    qed
  qed
next
  case (3 P)
  from "3.prems" "3.hyps"(1) obtain m P1 where a: "fact_P P = Inr (m, P1)" and b: "term_loop m P1 = Inr (n, P')"
    by (auto simp: term_P.psimps split: sum.splits prod.splits)
  from "3.hyps"(2) [OF a] "3.hyps"(3) [OF a refl b] show ?case by simp
next
  case (4 node P)
  show ?case
  proof (cases "peek_P P")
    case None
    with "4.prems" "4.hyps"(1) show ?thesis by (simp add: term_loop.psimps)
  next
    case (Some token)
    show ?thesis
    proof (cases "ttype token = ''*''")
      case False
      with Some "4.prems" "4.hyps"(1) show ?thesis by (simp add: term_loop.psimps)
    next
      case True
      with Some "4.prems" "4.hyps"(1) obtain t P1 right P2 where
        c: "consume (Some ''*'') P = Inr (t, P1)" and tm: "fact_P P1 = Inr (right, P2)"
        and l: "term_loop (PyTuple [PyStr ''*'', node, right]) P2 = Inr (n, P')"
        by (auto simp: term_loop.psimps split: sum.splits prod.splits)
      from "4.hyps"(2) [OF Some True c refl tm]
        "4.hyps"(3) [OF Some True c refl tm refl l] consume_Inr [OF c]
      show ?thesis by simp
    qed
  qed
next
  case (5 P)
  from "5.prems" "5.hyps"(1) obtain token where Some: "peek_P P = Some token"
    by (cases "peek_P P") (auto simp: fact_P.psimps)
  note eq = "5.prems" [unfolded fact_P.psimps [OF "5.hyps"(1)] Some option.case]
  consider (paren) "ttype token = ''(''"
    | (plus) "ttype token \<noteq> ''(''" "ttype token = ''+''"
    | (minus) "ttype token \<noteq> ''(''" "ttype token \<noteq> ''+''" "ttype token = ''-''"
    | (other) "ttype token \<noteq> ''(''" "ttype token \<noteq> ''+''" "ttype token \<noteq> ''-''"
    by blast
  then show ?case
  proof cases
    case paren
    with eq obtain t P1 P2 t' where c: "consume (Some ''('') P = Inr (t, P1)"
      and e: "exp_P P1 = Inr (n, P2)" and c': "consume (Some '')'') P2 = Inr (t', P')"
      by (auto split: sum.splits prod.splits)
    from "5.hyps"(2) [OF Some paren c refl e] consume_Inr [OF c] consume_Inr [OF c']
    show ?thesis by simp
  next
    case plus
    with eq obtain t P1 m where c: "consume (Some ''+'') P = Inr (t, P1)"
      and e: "fact_P P1 = Inr (m, P')"
      by (auto split: sum.splits prod.splits)
    from "5.hyps"(3) [OF Some plus c refl e] consume_Inr [OF c]
    show ?thesis by simp
  next
    case minus
    with eq obtain t P1 m where c: "consume (Some ''-'') P = Inr (t, P1)"
      and e: "fact_P P1 = Inr (m, P')"
      by (auto split: sum.splits prod.splits)
    from "5.hyps"(4) [OF Some minus c refl e] consume_Inr [OF c]
    show ?thesis by simp
  next
    case other
    with eq show ?thesis
      by (auto split: sum.splits prod.splits if_splits dest!: consume_Inr)
  qed
qed


termination exp_P
proof (relation "measure parser_measure", goal_cases)
  case 1
  show ?case by simp
next
  case (2 P)
  show ?case by simp
next
  case (3 P b x y)
  with parser_advanced_dom(3) [of P x y] show ?case by auto
next
  case (4 node P x2 b x y)
  with consume_Inr [of None P x y] show ?case by auto
next
  case (5 node P x2 b x y ba xa ya)
  with consume_Inr [of None P x y] parser_advanced_dom(3) [of y xa ya] show ?case by auto
next
  case (6 P)
  show ?case by simp
next
  case (7 P b x y)
  with parser_advanced_dom(5) [of P x y] show ?case by auto
next
  case (8 node P x2 b x y)
  with consume_Inr [of "Some ''*''" P x y] show ?case by auto
next
  case (9 node P x2 b x y ba xa ya)
  with consume_Inr [of "Some ''*''" P x y] parser_advanced_dom(5) [of y xa ya] show ?case by auto
next
  case (10 P x2 b x y)
  with consume_Inr [of "Some ''(''" P x y] show ?case by auto
next
  case (11 P x2 b x y)
  with consume_Inr [of "Some ''+''" P x y] show ?case by auto
next
  case (12 P x2 b x y)
  with consume_Inr [of "Some ''-''" P x y] show ?case by auto
qed

lemma parser_total:
  "exp_P_exp_loop_term_P_term_loop_fact_P_dom (Inl (Inl P1))"
  "exp_P_exp_loop_term_P_term_loop_fact_P_dom (Inl (Inr (n2, P2)))"
  "exp_P_exp_loop_term_P_term_loop_fact_P_dom (Inr (Inl P3))"
  "exp_P_exp_loop_term_P_term_loop_fact_P_dom (Inr (Inr (Inl (n4, P4))))"
  "exp_P_exp_loop_term_P_term_loop_fact_P_dom (Inr (Inr (Inr P5)))"
proof (induct P1 and n2 P2 and P3 and n4 P4 and P5 rule: exp_P_exp_loop_term_P_term_loop_fact_P.induct)
  case (1 P)
  then show ?case by (auto intro: exp_P_exp_loop_term_P_term_loop_fact_P.domintros)
next
  case (2 node P)
  then show ?case by (auto intro: exp_P_exp_loop_term_P_term_loop_fact_P.domintros)
next
  case (3 P)
  then show ?case by (auto intro: exp_P_exp_loop_term_P_term_loop_fact_P.domintros)
next
  case (4 node P)
  then show ?case by (auto intro: exp_P_exp_loop_term_P_term_loop_fact_P.domintros)
next
  case (5 P)
  then show ?case by (auto intro: exp_P_exp_loop_term_P_term_loop_fact_P.domintros)
qed

lemma fact_P_advanced: "fact_P P = Inr (n, P') \<Longrightarrow> tokens P' = tokens P \<and> ppos P \<le> ppos P'"
  by (rule parser_advanced_dom(5) [OF parser_total(5)])

lemma term_P_advanced: "term_P P = Inr (n, P') \<Longrightarrow> tokens P' = tokens P \<and> ppos P \<le> ppos P'"
  by (rule parser_advanced_dom(3) [OF parser_total(3)])

lemma exp_P_advanced: "exp_P P = Inr (n, P') \<Longrightarrow> tokens P' = tokens P \<and> ppos P \<le> ppos P'"
  by (rule parser_advanced_dom(1) [OF parser_total(1)])

declare exp_P.simps [simp del] exp_loop.simps [simp del] term_P.simps [simp del]
  term_loop.simps [simp del] fact_P.simps [simp del]

text \<open>\<open>assignment\<close> and the loop of \<open>parse\<close>, with the list \<open>assignments\<close> as accumulator.\<close>

definition assignment :: "Parser \<Rightarrow> error + pyval \<times> Parser" where
  "assignment P =
     (case consume (Some ''IDENTIFIER'') P of
        Inl e \<Rightarrow> Inl e
      | Inr (lhs, P1) \<Rightarrow>
          (case consume (Some ''='') P1 of
             Inl e \<Rightarrow> Inl e
           | Inr (t, P2) \<Rightarrow>
               (case exp_P P2 of
                  Inl e \<Rightarrow> Inl e
                | Inr (exp, P3) \<Rightarrow>
                    (case consume (Some '';'') P3 of
                       Inl e \<Rightarrow> Inl e
                     | Inr (t', P4) \<Rightarrow> Inr (PyTuple [PyStr ''assign'', PyStr (tvalue lhs), exp], P4)))))"

lemma assignment_advanced:
  assumes "assignment P = Inr (a, P')"
  shows "tokens P' = tokens P \<and> ppos P < ppos P' \<and> ppos P < length (tokens P)"
proof -
  from assms obtain lhs P1 t P2 e P3 t' where
    c1: "consume (Some ''IDENTIFIER'') P = Inr (lhs, P1)" and c2: "consume (Some ''='') P1 = Inr (t, P2)"
    and e: "exp_P P2 = Inr (e, P3)" and c3: "consume (Some '';'') P3 = Inr (t', P')"
    by (auto simp: assignment_def split: sum.splits prod.splits)
  from consume_Inr [OF c1] consume_Inr [OF c2] exp_P_advanced [OF e] consume_Inr [OF c3]
  show ?thesis by simp
qed

function parse_loop :: "Parser \<Rightarrow> pyval list \<Rightarrow> error + pyval list" where
  "parse_loop P assignments =
     (case peek_P P of
        None \<Rightarrow> Inr assignments
      | Some token \<Rightarrow>
          if ttype token = ''EOF'' then Inr assignments
          else (case assignment P of
                  Inl e \<Rightarrow> Inl e
                | Inr (a, P') \<Rightarrow> parse_loop P' (assignments @ [a])))"
  by pat_completeness auto
termination
proof (relation "measure (\<lambda>(P, assignments). length (tokens P) - ppos P)", goal_cases)
  case 1
  show ?case by simp
next
  case (2 P assignments token b a P')
  with assignment_advanced [of P a P'] show ?case by auto
qed

declare parse_loop.simps [simp del]

definition parse :: "Parser \<Rightarrow> error + pyval list" where
  "parse P = parse_loop P []"


section \<open>The evaluator (class Interpreter)\<close>

text \<open>
  \<open>eval_exp\<close> with the dictionary \<open>self.vars\<close> as its first argument. The dictionary is
  an association list with one pair for each key, in the order in which the keys were first
  inserted, as a Python \<open>dict\<close> keeps them. The branches are those of the source, in its
  order; \<open>node[0]\<close> of an empty tuple and \<open>node[1]\<close> of a tuple of length one raise
  \<open>IndexError\<close>. The payload of a \<open>'lit'\<close> node is taken to be an \<open>int\<close> and that of a
  \<open>'var'\<close> node a \<open>str\<close>, as \<open>Parser.fact\<close> builds them: any other payload is outside
  the model, which answers \<open>TypeError\<close> there. Python integers are unbounded, and so is
  \<open>int\<close>. The depth of recursion that Python allows is not modelled.
\<close>

lemma size_nth_less: "i < length xs \<Longrightarrow> size (xs ! i) < Suc (size_list size xs)"
  using size_list_estimation' [of "xs ! i" xs "size (xs ! i)" size] by simp

function eval_exp :: "(string \<times> int) list \<Rightarrow> pyval \<Rightarrow> error + int" where
  "eval_exp vars node =
     (case node of
        PyTuple items \<Rightarrow>
          (case items of
             [] \<Rightarrow> Inl IndexError
           | nodetype # args \<Rightarrow>
               if nodetype = PyStr ''lit'' then
                 (case args of
                    [] \<Rightarrow> Inl IndexError
                  | payload # _ \<Rightarrow> (case payload of PyInt v \<Rightarrow> Inr v | _ \<Rightarrow> Inl TypeError))
               else if nodetype = PyStr ''var'' then
                 (case args of
                    [] \<Rightarrow> Inl IndexError
                  | payload # _ \<Rightarrow>
                      (case payload of
                         PyStr var_name \<Rightarrow>
                           (case map_of vars var_name of
                              None \<Rightarrow> Inl (InterpreterError (''Uninitialized variable: '' @ var_name))
                            | Some v \<Rightarrow> Inr v)
                       | _ \<Rightarrow> Inl TypeError))
               else if (nodetype = PyStr ''+'' \<or> nodetype = PyStr ''-'') \<and> length items = 2 then
                 (case eval_exp vars (items ! 1) of
                    Inl e \<Rightarrow> Inl e
                  | Inr val \<Rightarrow> if nodetype = PyStr ''+'' then Inr val else Inr (- val))
               else if (nodetype = PyStr ''+'' \<or> nodetype = PyStr ''-'' \<or> nodetype = PyStr ''*'')
                       \<and> length items = 3 then
                 (case eval_exp vars (items ! 1) of
                    Inl e \<Rightarrow> Inl e
                  | Inr left \<Rightarrow>
                      (case eval_exp vars (items ! 2) of
                         Inl e \<Rightarrow> Inl e
                       | Inr right \<Rightarrow>
                           if nodetype = PyStr ''+'' then Inr (left + right)
                           else if nodetype = PyStr ''-'' then Inr (left - right)
                           else if nodetype = PyStr ''*'' then Inr (left * right)
                           else Inl (InterpreterError ''Unknown node structure in evaluation.'')))
               else Inl (InterpreterError ''Unknown node structure in evaluation.''))
      | _ \<Rightarrow> Inl (InterpreterError ''Invalid AST node.''))"
  by pat_completeness auto
termination
proof (relation "measure (\<lambda>(vars, node). size node)", goal_cases)
  case 1
  show ?case by simp
next
  case (2 vars node items nodetype args)
  then have "1 < length items" by simp
  from size_nth_less [OF this] "2"(1) show ?case by simp
next
  case (3 vars node items nodetype args)
  then have "1 < length items" by simp
  from size_nth_less [OF this] "3"(1) show ?case by simp
next
  case (4 vars node items nodetype args left)
  then have "2 < length items" by simp
  from size_nth_less [OF this] "4"(1) show ?case by simp
qed

declare eval_exp.simps [simp del]

text \<open>\<open>str\<close> of an integer, which is how the f-string of \<open>run\<close> formats a value.\<close>

definition digit_char :: "nat \<Rightarrow> char" where
  "digit_char d = ''0123456789'' ! d"

fun nat_str :: "nat \<Rightarrow> string" where
  "nat_str n = (if n < 10 then [digit_char n] else nat_str (n div 10) @ [digit_char (n mod 10)])"

declare nat_str.simps [simp del]

definition py_str :: "int \<Rightarrow> string" where
  "py_str i = (if i < 0 then CHR ''-'' # nat_str (nat (- i)) else nat_str (nat i))"

text \<open>
  \<open>run\<close>: the first loop executes the assignments, the second one prints a line for each
  key of \<open>sorted(self.vars.keys())\<close>. The printed lines are the result of the model.
  Nothing is printed when an assignment raises, since the first loop has not ended then.
  Strings are compared as Python compares them, code point by code point, a proper prefix
  before the longer string. An assignment that is no tuple of three with a \<open>str\<close> target
  is outside the model (\<open>ValueError\<close> for a tuple of another length).
\<close>

record Interpreter =
  assignments :: "pyval list"
  vars :: "(string \<times> int) list"

definition Interpreter_init :: "pyval list \<Rightarrow> Interpreter" where
  "Interpreter_init as = \<lparr>assignments = as, vars = []\<rparr>"

fun run_loop :: "pyval list \<Rightarrow> (string \<times> int) list \<Rightarrow> error + (string \<times> int) list" where
  "run_loop [] vs = Inr vs"
| "run_loop (assign # rest) vs =
     (case assign of
        PyTuple items \<Rightarrow>
          (case items of
             [_, target, exp] \<Rightarrow>
               (case target of
                  PyStr varname \<Rightarrow>
                    (case eval_exp vs exp of
                       Inl e \<Rightarrow> Inl e
                     | Inr v \<Rightarrow> run_loop rest (AList.update varname v vs))
                | _ \<Rightarrow> Inl TypeError)
           | _ \<Rightarrow> Inl ValueError)
      | _ \<Rightarrow> Inl TypeError)"

definition report :: "(string \<times> int) list \<Rightarrow> string list" where
  "report vs = map (\<lambda>var. var @ '' = '' @ py_str (the (map_of vs var))) (sort (map fst vs))"

definition run :: "Interpreter \<Rightarrow> error + string list" where
  "run I = (case run_loop (assignments I) (vars I) of Inl e \<Rightarrow> Inl e | Inr vs \<Rightarrow> Inr (report vs))"

text \<open>\<open>run_program\<close>: scan, parse and run; the first error ends the pipeline.\<close>

definition run_program :: "string \<Rightarrow> error + string list" where
  "run_program program =
     (case fst (tokenize (Lexer_init program)) of
        Inl e \<Rightarrow> Inl e
      | Inr toks \<Rightarrow>
          (case parse (Parser_init toks) of
             Inl e \<Rightarrow> Inl e
           | Inr asts \<Rightarrow> run (Interpreter_init asts)))"


section \<open>Evaluating the definitions on concrete programs\<close>

lemmas lex_eval = tokenize_def tokenize_loop.simps next_token_def skip_whitespace_def peek_L_def
  advance_def Let_def advance_while.simps isspace_def isalpha_def isdigit_def isalnum_def slice_def
  Lexer_init_def

lemmas parse_eval = Parser_init_def parse_def parse_loop.simps assignment_def consume_def peek_P_def
  exp_P.simps exp_loop.simps term_P.simps term_loop.simps fact_P.simps py_int_def is_digit10_def

lemmas run_eval = run_def Interpreter_init_def eval_exp.simps report_def py_str_def nat_str.simps
  digit_char_def

section \<open>The end-to-end example\<close>

text \<open>
  Claim C1. The three-line program \<open>x = 1; y = 2; z = ---(x+y)*(x+-y);\<close> (one statement
  on each line) runs through the scanner, the parser and the evaluator without an error and
  prints the lines \<open>x = 1\<close>, \<open>y = 2\<close> and \<open>z = 3\<close>, in this order.
\<close>

theorem run_program_example:
  "run_program (''x = 1;'' @ [CHR 0x0A] @ ''y = 2;'' @ [CHR 0x0A] @ ''z = ---(x+y)*(x+-y);'')
     = Inr [''x = 1'', ''y = 2'', ''z = 3'']"
  by (simp add: run_program_def lex_eval parse_eval run_eval)

section \<open>Properties of the scanner\<close>

text \<open>One round of the loop of \<open>tokenize\<close>, by the result of \<open>next_token\<close>.\<close>

lemma tokenize_loop_Inl: "next_token L = (Inl e, L') \<Longrightarrow> tokenize_loop L acc = (Inl e, L')"
  by (subst tokenize_loop.simps) simp

lemma tokenize_loop_EOF:
  "next_token L = (Inr token, L') \<Longrightarrow> ttype token = EOF \<Longrightarrow> tokenize_loop L acc = (Inr (acc @ [token]), L')"
  by (subst tokenize_loop.simps) simp

lemma tokenize_loop_more:
  "next_token L = (Inr token, L') \<Longrightarrow> ttype token \<noteq> EOF \<Longrightarrow>
     tokenize_loop L acc = tokenize_loop L' (acc @ [token])"
  by (subst tokenize_loop.simps) simp

lemma tokenize_loop_shape:
  "fst (tokenize_loop L acc) = Inr toks \<Longrightarrow>
     \<exists>new e. toks = acc @ new @ [e] \<and> ttype e = EOF \<and> (\<forall>t \<in> set new. ttype t \<noteq> EOF)"
proof (induction L acc rule: tokenize_loop.induct)
  case (1 L tokens)
  obtain r L' where nt: "next_token L = (r, L')" by (cases "next_token L")
  show ?case
  proof (cases r)
    case (Inl e)
    with nt "1.prems" show ?thesis by (simp add: tokenize_loop_Inl)
  next
    case (Inr token)
    show ?thesis
    proof (cases "ttype token = EOF")
      case True
      with nt Inr "1.prems" have "toks = tokens @ [] @ [token]"
        by (simp add: tokenize_loop_EOF)
      with True show ?thesis
        by (intro exI [of _ "[]"] exI [of _ token]) simp
    next
      case False
      with nt Inr "1.prems" have "fst (tokenize_loop L' (tokens @ [token])) = Inr toks"
        by (simp add: tokenize_loop_more)
      from "1.IH" [OF nt [symmetric] Inr refl False this]
      obtain new e where "toks = (tokens @ [token]) @ new @ [e]" "ttype e = EOF"
        "\<forall>t \<in> set new. ttype t \<noteq> EOF" by (elim exE conjE)
      with False show ?thesis
        by (intro exI [of _ "token # new"] exI [of _ e]) simp
    qed
  qed
qed

text \<open>
  Claim C3. When \<open>tokenize\<close> returns a token list, from any state of the scanner, the
  list is not empty, its last token is the end-of-input token, no earlier token is one, and
  so the list holds exactly one end-of-input token.
\<close>

theorem tokenize_ends_with_one_EOF:
  assumes "fst (tokenize L) = Inr toks"
  shows "toks \<noteq> [] \<and> ttype (last toks) = EOF \<and> (\<forall>t \<in> set (butlast toks). ttype t \<noteq> EOF) \<and>
         length (filter (\<lambda>t. ttype t = EOF) toks) = 1"
proof -
  from tokenize_loop_shape [of L "[]" toks] assms obtain new e where
    toks: "toks = new @ [e]" and e: "ttype e = EOF" and new: "\<forall>t \<in> set new. ttype t \<noteq> EOF"
    by (auto simp: tokenize_def)
  from new have "filter (\<lambda>t. ttype t = EOF) new = []" by (simp add: filter_empty_conv)
  with toks e new show ?thesis by simp
qed

theorem tokenize_ends_with_one_EOF_witness:
  "fst (tokenize (Lexer_init ''a = 1;'')) =
     Inr [Token IDENTIFIER ''a'', Token ASSIGN ''='', Token LITERAL ''1'', Token SEMI '';'', Token EOF ''''] \<and>
   ttype (last [Token IDENTIFIER ''a'', Token ASSIGN ''='', Token LITERAL ''1'', Token SEMI '';'', Token EOF '''']) = EOF \<and>
   length (filter (\<lambda>t. ttype t = EOF)
     [Token IDENTIFIER ''a'', Token ASSIGN ''='', Token LITERAL ''1'', Token SEMI '';'', Token EOF '''']) = 1"
proof -
  have h: "fst (tokenize (Lexer_init ''a = 1;'')) =
     Inr [Token IDENTIFIER ''a'', Token ASSIGN ''='', Token LITERAL ''1'', Token SEMI '';'', Token EOF '''']"
    by (simp add: lex_eval)
  from tokenize_ends_with_one_EOF [OF h] h show ?thesis by simp
qed

text \<open>
  Where \<open>next_token\<close> raises: the cursor is on the character that the message names, or
  on the digit that follows a leading zero.
\<close>

lemma peek_L_Some: "peek_L L = Some c \<Longrightarrow> lpos L < length (ltext L) \<and> c = ltext L ! lpos L"
  by (auto simp: peek_L_def split: if_splits)

lemma next_token_error:
  assumes "next_token L = (Inl e, L')" and "ltext L = s"
  shows "ltext L' = s \<and> lpos L' < length s \<and>
         (e = InterpreterError (''Lexical error: Unexpected character: '' @ [s ! lpos L'])
          \<or> e = InterpreterError ''Lexical error: Invalid number format (leading zero).'' \<and>
            0 < lpos L' \<and> s ! (lpos L' - 1) = CHR ''0'' \<and> isdigit (s ! lpos L'))"
proof -
  define L1 where "L1 = skip_whitespace L"
  have t1: "ltext L1 = s" using assms(2) by (simp add: L1_def skip_whitespace_def)
  from assms(1) obtain c where c: "peek_L L1 = Some c"
    by (cases "peek_L L1") (auto simp: next_token_def L1_def Let_def)
  from peek_L_Some [OF c] t1 have inside: "lpos L1 < length s" and cs: "c = s ! lpos L1"
    by simp_all
  note eq = assms(1) [unfolded next_token_def L1_def [symmetric] Let_def c option.case]
  have n1: "c \<noteq> CHR ''+''" using eq by (cases "c = CHR ''+''") simp_all
  have n2: "c \<noteq> CHR ''-''" using eq n1 by (cases "c = CHR ''-''") simp_all
  have n3: "c \<noteq> CHR ''*''" using eq n1 n2 by (cases "c = CHR ''*''") simp_all
  have n4: "c \<noteq> CHR ''(''" using eq n1 n2 n3 by (cases "c = CHR ''(''") simp_all
  have n5: "c \<noteq> CHR '')''" using eq n1 n2 n3 n4 by (cases "c = CHR '')''") simp_all
  have n6: "c \<noteq> CHR ''=''" using eq n1 n2 n3 n4 n5 by (cases "c = CHR ''=''") simp_all
  have n7: "c \<noteq> CHR '';''" using eq n1 n2 n3 n4 n5 n6 by (cases "c = CHR '';''") simp_all
  have n8: "\<not> (isalpha c \<or> c = CHR ''_'')"
    using eq n1 n2 n3 n4 n5 n6 n7 by (cases "isalpha c \<or> c = CHR ''_''") simp_all
  show ?thesis
  proof (cases "isdigit c")
    case False
    with eq n1 n2 n3 n4 n5 n6 n7 n8
    have "L' = L1" and "e = InterpreterError (''Lexical error: Unexpected character: '' @ [c])"
      by simp_all
    with t1 inside cs show ?thesis by simp
  next
    case True
    note facts = eq n1 n2 n3 n4 n5 n6 n7 n8 True t1
    have z: "s ! lpos L1 = CHR ''0''"
      using facts by (cases "s ! lpos L1 = CHR ''0''") simp_all
    have pd: "case peek_L (advance L1) of None \<Rightarrow> False | Some c \<Rightarrow> isdigit c"
      using facts z
      by (cases "case peek_L (advance L1) of None \<Rightarrow> False | Some c \<Rightarrow> isdigit c") simp_all
    then obtain d where d: "peek_L (advance L1) = Some d" "isdigit d"
      by (cases "peek_L (advance L1)") simp_all
    from facts z pd have r: "L' = advance L1"
      "e = InterpreterError ''Lexical error: Invalid number format (leading zero).''"
      by simp_all
    from peek_L_Some [OF d(1)] t1 d(2) have "Suc (lpos L1) < length s" "isdigit (s ! Suc (lpos L1))"
      by simp_all
    with r z t1 show ?thesis by simp
  qed
qed

lemma tokenize_loop_error:
  "tokenize_loop L acc = (Inl e, L') \<Longrightarrow> \<exists>L0. ltext L0 = ltext L \<and> next_token L0 = (Inl e, L')"
proof (induction L acc rule: tokenize_loop.induct)
  case (1 L tokens)
  obtain r L1 where nt: "next_token L = (r, L1)" by (cases "next_token L")
  show ?case
  proof (cases r)
    case (Inl e')
    with nt "1.prems" have "next_token L = (Inl e, L')" by (simp add: tokenize_loop_Inl)
    then show ?thesis by (intro exI [of _ L]) simp
  next
    case (Inr token)
    show ?thesis
    proof (cases "ttype token = EOF")
      case True
      with nt Inr "1.prems" show ?thesis by (simp add: tokenize_loop_EOF)
    next
      case False
      with nt Inr "1.prems" have "tokenize_loop L1 (tokens @ [token]) = (Inl e, L')"
        by (simp add: tokenize_loop_more)
      from "1.IH" [OF nt [symmetric] Inr refl False this]
      obtain L0 where "ltext L0 = ltext L1" "next_token L0 = (Inl e, L')" by (elim exE conjE)
      moreover have "ltext L1 = ltext L" using next_token_text [of L] nt by simp
      ultimately show ?thesis by (intro exI [of _ L0]) simp
    qed
  qed
qed

text \<open>
  Claim C2, as amended. Whenever the scanner fails on a text, the cursor of the scanner is
  inside the text, and the error is either the message \<open>Lexical error: Unexpected
  character: c\<close>, where \<open>c\<close> is the character under the cursor, or the message
  \<open>Lexical error: Invalid number format (leading zero).\<close>, in which case the cursor is on
  a digit that follows the character \<open>0\<close>. The message holds nothing else: the position
  of the error can be read from the scanner object, not from the error.
\<close>

theorem lexical_error_message:
  assumes "tokenize (Lexer_init s) = (Inl e, L')"
  shows "ltext L' = s \<and> lpos L' < length s \<and>
         (e = InterpreterError (''Lexical error: Unexpected character: '' @ [s ! lpos L'])
          \<or> e = InterpreterError ''Lexical error: Invalid number format (leading zero).'' \<and>
            0 < lpos L' \<and> s ! (lpos L' - 1) = CHR ''0'' \<and> isdigit (s ! lpos L'))"
proof -
  from tokenize_loop_error [of "Lexer_init s" "[]" e L'] assms
  obtain L0 where t0: "ltext L0 = s" and nt0: "next_token L0 = (Inl e, L')"
    by (auto simp: tokenize_def Lexer_init_def)
  from next_token_error [OF nt0 t0] show ?thesis .
qed

theorem lexical_error_message_witness:
  "tokenize (Lexer_init ''x = 01;'') =
     (Inl (InterpreterError ''Lexical error: Invalid number format (leading zero).''),
      \<lparr>ltext = ''x = 01;'', lpos = 5\<rparr>) \<and>
   ''x = 01;'' ! 4 = CHR ''0'' \<and> isdigit (''x = 01;'' ! 5)"
proof -
  have h: "tokenize (Lexer_init ''x = 01;'') =
     (Inl (InterpreterError ''Lexical error: Invalid number format (leading zero).''),
      \<lparr>ltext = ''x = 01;'', lpos = 5\<rparr>)"
    by (simp add: lex_eval)
  from lexical_error_message [OF h] h show ?thesis by simp
qed

text \<open>
  Claim C2 as stated fails: scanning \<open>@\<close> stops at position 0 and scanning \<open>@\<close> after
  one blank stops at position 1, and both raise the same error, whose message therefore does
  not report the position.
\<close>

theorem lexical_error_without_position:
  "tokenize (Lexer_init ''@'') =
     (Inl (InterpreterError ''Lexical error: Unexpected character: @''), \<lparr>ltext = ''@'', lpos = 0\<rparr>) \<and>
   tokenize (Lexer_init '' @'') =
     (Inl (InterpreterError ''Lexical error: Unexpected character: @''), \<lparr>ltext = '' @'', lpos = 1\<rparr>)"
  by (simp add: lex_eval)

section \<open>Properties of the parser and of whole programs\<close>




text \<open>
  Claim C6. Scanning the text \<open>01\<close> fails with the lexical error of a leading zero, with
  the cursor on the digit after the zero. Scanning the text \<open>0\<close> gives a literal token
  with the text \<open>0\<close>, which \<open>int\<close> reads as the number 0; so \<open>x = 0;\<close> runs and
  \<open>x = 01;\<close> fails.
\<close>

theorem leading_zero:
  "tokenize (Lexer_init ''01'') =
     (Inl (InterpreterError ''Lexical error: Invalid number format (leading zero).''),
      \<lparr>ltext = ''01'', lpos = 1\<rparr>) \<and>
   next_token (Lexer_init ''0'') = (Inr (Token LITERAL ''0''), \<lparr>ltext = ''0'', lpos = 1\<rparr>) \<and>
   fst (tokenize (Lexer_init ''0'')) = Inr [Token LITERAL ''0'', Token EOF ''''] \<and>
   py_int ''0'' = Inr 0 \<and>
   run_program ''x = 0;'' = Inr [''x = 0''] \<and>
   run_program ''x = 01;'' =
     Inl (InterpreterError ''Lexical error: Invalid number format (leading zero).'')"
  by (simp add: run_program_def lex_eval parse_eval run_eval)

text \<open>
  Claim C7. Evaluating a variable node whose name has no binding in the environment fails
  with the error \<open>Uninitialized variable:\<close> followed by the name; no value is returned in
  its place. The program \<open>y = x;\<close> fails in this way.
\<close>

theorem uninitialized_variable:
  "(map_of vs n = None \<longrightarrow>
      eval_exp vs (PyTuple [PyStr ''var'', PyStr n]) =
        Inl (InterpreterError (''Uninitialized variable: '' @ n))) \<and>
   run_program ''y = x;'' = Inl (InterpreterError ''Uninitialized variable: x'')"
  by (simp add: run_program_def lex_eval parse_eval run_eval)

theorem uninitialized_variable_witness:
  "map_of [(''a'', 1 :: int)] ''b'' = None \<and>
   eval_exp [(''a'', 1)] (PyTuple [PyStr ''var'', PyStr ''b'']) =
     Inl (InterpreterError ''Uninitialized variable: b'')"
  using uninitialized_variable [of "[(''a'', 1)]" "''b''"] by simp

section \<open>Properties of the evaluator\<close>

lemma run_loop_append:
  "run_loop (as1 @ as2) vs =
     (case run_loop as1 vs of Inl e \<Rightarrow> Inl e | Inr vs1 \<Rightarrow> run_loop as2 vs1)"
  by (induction as1 arbitrary: vs) (simp_all split: pyval.splits list.splits sum.splits)

text \<open>
  Claim C9. For an assignment statement anywhere in a program, the statements before it
  run first; its right-hand side is evaluated in the environment that they leave; only then
  is the target bound to the value, as a new binding or in place of the old one, and the
  later statements run in the environment so changed. An error before or in the statement
  ends the run. The program \<open>x = 1; x = x + 1;\<close> prints \<open>x = 2\<close>.
\<close>

theorem assignment_order:
  "run_loop (as1 @ PyTuple [t, PyStr x, e] # as2) vs =
     (case run_loop as1 vs of
        Inl err \<Rightarrow> Inl err
      | Inr vs1 \<Rightarrow>
          (case eval_exp vs1 e of
             Inl err \<Rightarrow> Inl err
           | Inr v \<Rightarrow> run_loop as2 (AList.update x v vs1))) \<and>
   map_of (AList.update x v vs1) = (map_of vs1)(x \<mapsto> v) \<and>
   run_program ''x = 1; x = x + 1;'' = Inr [''x = 2'']"
proof (intro conjI)
  show "run_loop (as1 @ PyTuple [t, PyStr x, e] # as2) vs =
     (case run_loop as1 vs of
        Inl err \<Rightarrow> Inl err
      | Inr vs1 \<Rightarrow>
          (case eval_exp vs1 e of
             Inl err \<Rightarrow> Inl err
           | Inr v \<Rightarrow> run_loop as2 (AList.update x v vs1)))"
    by (simp add: run_loop_append split: sum.splits)
  show "map_of (AList.update x v vs1) = (map_of vs1)(x \<mapsto> v)"
    by (rule update_conv')
  show "run_program ''x = 1; x = x + 1;'' = Inr [''x = 2'']"
    by (simp add: run_program_def lex_eval parse_eval run_eval)
qed

text \<open>The keys of the environment after a run: those before it and the targets assigned.\<close>

lemma run_loop_keys:
  "run_loop as vs = Inr vs' \<Longrightarrow>
     fst ` set vs' = fst ` set vs \<union> {n. \<exists>t e. PyTuple [t, PyStr n, e] \<in> set as} \<and>
     (distinct (map fst vs) \<longrightarrow> distinct (map fst vs'))"
proof (induction as arbitrary: vs)
  case Nil
  then show ?case by simp
next
  case (Cons a as)
  from Cons.prems obtain t n e v where a: "a = PyTuple [t, PyStr n, e]"
    and ev: "eval_exp vs e = Inr v" and rest: "run_loop as (AList.update n v vs) = Inr vs'"
    by (auto split: pyval.splits list.splits sum.splits)
  from Cons.IH [OF rest] show ?case
    by (auto simp: a dom_update distinct_update)
qed

text \<open>
  Claim C8. When \<open>run\<close> succeeds on a fresh interpreter, the assignments have run to a
  final environment; the names printed are exactly the targets of the assignments, each
  once, in strictly ascending order of the names; each name has a binding in the final
  environment, and its line is the name, \<open> = \<close> and the value bound to it. The program
  \<open>b = 1; a = 2;\<close> prints \<open>a = 2\<close> and then \<open>b = 1\<close>.
\<close>

theorem report_sorted_by_name:
  "(run (Interpreter_init as) = Inr out \<longrightarrow>
     (\<exists>vs. run_loop as [] = Inr vs \<and>
        set (sort (map fst vs)) = {n. \<exists>t e. PyTuple [t, PyStr n, e] \<in> set as} \<and>
        sorted_wrt (<) (sort (map fst vs)) \<and>
        (\<forall>n \<in> set (map fst vs). map_of vs n \<noteq> None) \<and>
        out = map (\<lambda>n. n @ '' = '' @ py_str (the (map_of vs n))) (sort (map fst vs)))) \<and>
   run_program ''b = 1; a = 2;'' = Inr [''a = 2'', ''b = 1'']"
proof (intro conjI impI)
  assume r: "run (Interpreter_init as) = Inr out"
  then obtain vs where vs: "run_loop as [] = Inr vs" and out: "out = report vs"
    by (auto simp: run_def Interpreter_init_def split: sum.splits)
  from run_loop_keys [OF vs]
  have keys: "set (map fst vs) = {n. \<exists>t e. PyTuple [t, PyStr n, e] \<in> set as}"
    and d: "distinct (map fst vs)" by simp_all
  have s1: "set (sort (map fst vs)) = {n. \<exists>t e. PyTuple [t, PyStr n, e] \<in> set as}"
    using keys by simp
  have s2: "sorted_wrt (<) (sort (map fst vs))"
    using d by (simp add: strict_sorted_iff)
  have s3: "\<forall>n \<in> set (map fst vs). map_of vs n \<noteq> None"
    by (simp add: map_of_eq_None_iff)
  have s4: "out = map (\<lambda>n. n @ '' = '' @ py_str (the (map_of vs n))) (sort (map fst vs))"
    using out by (simp add: report_def)
  show "\<exists>vs. run_loop as [] = Inr vs \<and>
        set (sort (map fst vs)) = {n. \<exists>t e. PyTuple [t, PyStr n, e] \<in> set as} \<and>
        sorted_wrt (<) (sort (map fst vs)) \<and>
        (\<forall>n \<in> set (map fst vs). map_of vs n \<noteq> None) \<and>
        out = map (\<lambda>n. n @ '' = '' @ py_str (the (map_of vs n))) (sort (map fst vs))"
    by (intro exI [of _ vs] conjI) (rule vs s1 s2 s3 s4)+
next
  show "run_program ''b = 1; a = 2;'' = Inr [''a = 2'', ''b = 1'']"
    by (simp add: run_program_def lex_eval parse_eval run_eval)
qed


theorem report_sorted_by_name_witness:
  "run (Interpreter_init [PyTuple [PyStr ''assign'', PyStr ''b'', PyTuple [PyStr ''lit'', PyInt 1]],
                          PyTuple [PyStr ''assign'', PyStr ''a'', PyTuple [PyStr ''lit'', PyInt 2]],
                          PyTuple [PyStr ''assign'', PyStr ''b'', PyTuple [PyStr ''lit'', PyInt 3]]])
     = Inr [''a = 2'', ''b = 3''] \<and>
   (\<exists>vs. run_loop [PyTuple [PyStr ''assign'', PyStr ''b'', PyTuple [PyStr ''lit'', PyInt 1]],
                     PyTuple [PyStr ''assign'', PyStr ''a'', PyTuple [PyStr ''lit'', PyInt 2]],
                     PyTuple [PyStr ''assign'', PyStr ''b'', PyTuple [PyStr ''lit'', PyInt 3]]] []
            = Inr vs \<and>
         sorted_wrt (<) (sort (map fst vs)) \<and>
         [''a = 2'', ''b = 3''] =
           map (\<lambda>n. n @ '' = '' @ py_str (the (map_of vs n))) (sort (map fst vs)))"
proof -
  let ?as = "[PyTuple [PyStr ''assign'', PyStr ''b'', PyTuple [PyStr ''lit'', PyInt 1]],
              PyTuple [PyStr ''assign'', PyStr ''a'', PyTuple [PyStr ''lit'', PyInt 2]],
              PyTuple [PyStr ''assign'', PyStr ''b'', PyTuple [PyStr ''lit'', PyInt 3]]]"
  have h: "run (Interpreter_init ?as) = Inr [''a = 2'', ''b = 3'']"
    by (simp add: run_eval)
  have "run (Interpreter_init ?as) = Inr [''a = 2'', ''b = 3''] \<longrightarrow>
     (\<exists>vs. run_loop ?as [] = Inr vs \<and>
        set (sort (map fst vs)) = {n. \<exists>t e. PyTuple [t, PyStr n, e] \<in> set ?as} \<and>
        sorted_wrt (<) (sort (map fst vs)) \<and>
        (\<forall>n \<in> set (map fst vs). map_of vs n \<noteq> None) \<and>
        [''a = 2'', ''b = 3''] =
          map (\<lambda>n. n @ '' = '' @ py_str (the (map_of vs n))) (sort (map fst vs)))"
    by (rule conjunct1 [OF report_sorted_by_name [of ?as "[''a = 2'', ''b = 3'']"]])
  from mp [OF this h]
  obtain vs where "run_loop ?as [] = Inr vs" "sorted_wrt (<) (sort (map fst vs))"
    "[''a = 2'', ''b = 3''] = map (\<lambda>n. n @ '' = '' @ py_str (the (map_of vs n))) (sort (map fst vs))"
    by (elim exE conjE)
  with h show ?thesis by (intro conjI exI [of _ vs])
qed

end
